theory Spec2Isabelle
  imports Main "HOL-Library.Word"
begin

unbundle bit_operations_syntax

section \<open>smallsh: a shallow embedding of \<^verbatim>\<open>src/smallsh.c\<close>\<close>

text \<open>
  The shell is one C file. Its functions are embedded one by one, under their own names:
  the two signal handlers, \<^verbatim>\<open>executeCommand\<close> (split at the three-way branch on the value that
  \<^verbatim>\<open>fork\<close> returns), the built-ins, \<^verbatim>\<open>parseInput\<close>, \<^verbatim>\<open>expandPID\<close> and the body of the loop of
  \<^verbatim>\<open>main\<close>. Everything the operating system answers (what \<^verbatim>\<open>fgets\<close> reads, what \<^verbatim>\<open>fork\<close>,
  \<^verbatim>\<open>waitpid\<close>, \<^verbatim>\<open>open\<close>, \<^verbatim>\<open>chdir\<close>, \<^verbatim>\<open>execvp\<close> return) is an input of the model, so that a
  theorem holds for every behaviour of the system. Writes beyond a fixed-size buffer and
  reads through a null pointer are results of the model, not unspecified values.
\<close>

subsection \<open>Constants and basic types\<close>

definition MAX_LENGTH :: nat where
  "MAX_LENGTH = 2048"

definition MAX_ARGS :: nat where
  "MAX_ARGS = 512"

definition STDIN_FILENO :: nat where
  "STDIN_FILENO = 0"

definition STDOUT_FILENO :: nat where
  "STDOUT_FILENO = 1"

definition EXIT_FAILURE :: int where
  "EXIT_FAILURE = 1"

text \<open>A \<^verbatim>\<open>char*\<close> is a string or \<^verbatim>\<open>NULL\<close>; the \<^verbatim>\<open>int\<close> that \<^verbatim>\<open>waitpid\<close> fills in is 32 bits wide.\<close>

type_synonym cptr = "string option"

type_synonym status = "32 word"

datatype error = NullDeref | BufferOverflow | OutOfBounds

subsection \<open>The status macros of \<^verbatim>\<open><sys/wait.h>\<close>\<close>

text \<open>
  Modelled from the spec: the header \<^verbatim>\<open><sys/wait.h>\<close> that defines \<^verbatim>\<open>WIFEXITED\<close>,
  \<^verbatim>\<open>WIFSIGNALED\<close>, \<^verbatim>\<open>WEXITSTATUS\<close> and \<^verbatim>\<open>WTERMSIG\<close> is not under \<^verbatim>\<open>src/\<close>. The spec calls the
  value an "encoded termination result (exit code or terminating signal)" with a third,
  "stopped", state; the encoding taken here is the one of Linux: the low seven bits hold
  the terminating signal (0 for a normal exit, \<^verbatim>\<open>0x7f\<close> for a stopped child), the next
  byte holds the exit code.
\<close>

definition WTERMSIG :: "status \<Rightarrow> status" where
  "WTERMSIG s = s AND 0x7f"

definition WEXITSTATUS :: "status \<Rightarrow> status" where
  "WEXITSTATUS s = drop_bit 8 (s AND 0xff00)"

definition WIFEXITED :: "status \<Rightarrow> bool" where
  "WIFEXITED s \<longleftrightarrow> WTERMSIG s = 0"

definition WIFSIGNALED :: "status \<Rightarrow> bool" where
  "WIFSIGNALED s \<longleftrightarrow> 0 < sint (ucast ((s AND 0x7f) + 1) :: 8 word) div 2"

definition WIFSTOPPED :: "status \<Rightarrow> bool" where
  "WIFSTOPPED s \<longleftrightarrow> s AND 0xff = 0x7f"

subsection \<open>Formatting with \<^verbatim>\<open>%d\<close>\<close>

definition digit :: "nat \<Rightarrow> char" where
  "digit n = ''0123456789'' ! n"

function dec_nat :: "nat \<Rightarrow> string" where
  "dec_nat n = (if n < 10 then [digit n] else dec_nat (n div 10) @ [digit (n mod 10)])"
  by pat_completeness auto
termination
  by (relation "measure id") auto

declare dec_nat.simps [simp del]

definition fmt_d :: "int \<Rightarrow> string" where
  "fmt_d i = (if i < 0 then CHR ''-'' # dec_nat (nat (- i)) else dec_nat (nat i))"

subsection \<open>The state of the interpreter process\<close>

text \<open>
  Each process keeps the list of the library and system calls it has made, in order, so
  that a \<^verbatim>\<open>write\<close> (unbuffered) can be told from a \<^verbatim>\<open>printf\<close> (buffered by \<^verbatim>\<open>stdio\<close>), and
  a cycle that creates a process from one that does not. \<^verbatim>\<open>Open\<close> and \<^verbatim>\<open>Fork\<close> record the
  value returned.
\<close>

datatype signame = SIGINT | SIGTSTP

datatype disposition = SIG_IGN | SIG_DFL

datatype oflag = O_RDONLY | O_WRONLY | O_CREAT | O_TRUNC

datatype call =
    Printf string
  | Fflush
  | Write nat string
  | Perror string
  | Fprintf_stderr string
  | Fork int
  | Signal signame disposition
  | Open cptr "oflag list" "nat option" int
  | Dup2 int nat
  | Close int
  | Exit int
  | Execvp string "string list"

text \<open>
  \<^verbatim>\<open>last_status\<close> is the global of line 28; \<^verbatim>\<open>is_foreground_only\<close> is the \<^verbatim>\<open>static\<close> local of
  \<^verbatim>\<open>handleSIGTSTP\<close>, which lives as long as the process; \<^verbatim>\<open>cwd\<close> is the path of the last
  successful \<^verbatim>\<open>chdir\<close>.
\<close>

record shell =
  last_status :: status
  is_foreground_only :: bool
  calls :: "call list"
  cwd :: string

definition shell_init :: "string \<Rightarrow> shell" where
  "shell_init d = \<lparr>last_status = 0, is_foreground_only = False, calls = [], cwd = d\<rparr>"

definition emit :: "call \<Rightarrow> shell \<Rightarrow> shell" where
  "emit ev s = s\<lparr>calls := calls s @ [ev]\<rparr>"

text \<open>\<^verbatim>\<open>write(fd, buf, n)\<close> sends the first \<^verbatim>\<open>n\<close> bytes of the buffer; a string literal ends in a zero byte.\<close>

definition sys_write :: "nat \<Rightarrow> string \<Rightarrow> nat \<Rightarrow> shell \<Rightarrow> shell" where
  "sys_write fd buf n s = emit (Write fd (take n (buf @ [CHR 0x00]))) s"

subsection \<open>Signal handlers\<close>

definition handleSIGINT :: "shell \<Rightarrow> shell" where
  "handleSIGINT s = s"

definition msg_enter :: string where
  "msg_enter = ''\<newline>Entering foreground-only mode (& is now ignored)\<newline>''"

definition msg_exit :: string where
  "msg_exit = ''\<newline>Exiting foreground-only mode\<newline>''"

definition handleSIGTSTP :: "shell \<Rightarrow> shell" where
  "handleSIGTSTP s =
     (let s1 = s\<lparr>is_foreground_only := \<not> is_foreground_only s\<rparr>
      in if is_foreground_only s1
         then sys_write STDOUT_FILENO msg_enter 50 s1
         else sys_write STDOUT_FILENO msg_exit 30 s1)"

subsection \<open>The foreground wait of \<^verbatim>\<open>executeCommand\<close>\<close>

text \<open>
  The \<^verbatim>\<open>do ... while\<close> loop of lines 160-162 calls \<^verbatim>\<open>waitpid(pid, &status, WUNTRACED)\<close> until
  \<^verbatim>\<open>status\<close> is an exit or a signal termination. The value that \<^verbatim>\<open>waitpid\<close> returns is dropped
  (line 161) and \<^verbatim>\<open>status\<close> is declared without a value (line 57). The list holds what the
  successive calls do for this child: \<open>Some st\<close> for a call that succeeds and writes \<open>st\<close>
  into \<^verbatim>\<open>status\<close>, \<open>None\<close> for a call that fails, returns -1 and leaves \<^verbatim>\<open>status\<close> as it was;
  \<open>cur\<close> is what \<^verbatim>\<open>status\<close> holds before the call. The test of line 162 reads \<^verbatim>\<open>status\<close>
  after either kind of call. When the list runs out the loop has not come to its end and
  the parent stays in it: the result is \<open>None\<close>.
\<close>

fun fg_wait :: "status \<Rightarrow> status option list \<Rightarrow> status option" where
  "fg_wait cur [] = None"
| "fg_wait cur (None # rest) =
     (if \<not> WIFEXITED cur \<and> \<not> WIFSIGNALED cur then fg_wait cur rest else Some cur)"
| "fg_wait cur (Some st # rest) =
     (if \<not> WIFEXITED st \<and> \<not> WIFSIGNALED st then fg_wait st rest else Some st)"

subsection \<open>Built-in commands\<close>

definition printStatus :: "shell \<Rightarrow> shell" where
  "printStatus s =
     (if WIFEXITED (last_status s)
      then emit (Printf (''exit value '' @ fmt_d (sint (WEXITSTATUS (last_status s))) @ ''\<newline>'')) s
      else emit (Printf (''terminated by signal '' @ fmt_d (sint (WTERMSIG (last_status s))) @ ''\<newline>'')) s)"

text \<open>
  \<^verbatim>\<open>chdir\<close> answers 0 or -1. Whether a directory can be entered is the system's answer
  \<open>ok\<close>; a null path is refused.
\<close>

definition sys_chdir :: "(string \<Rightarrow> bool) \<Rightarrow> cptr \<Rightarrow> shell \<Rightarrow> int \<times> shell" where
  "sys_chdir ok p s =
     (case p of
        None \<Rightarrow> (- 1, s)
      | Some d \<Rightarrow> if ok d then (0, s\<lparr>cwd := d\<rparr>) else (- 1, s))"

definition changeDirectory :: "cptr \<Rightarrow> (string \<Rightarrow> bool) \<Rightarrow> cptr \<Rightarrow> shell \<Rightarrow> shell" where
  "changeDirectory home_env ok path s =
     (if path = None \<or> path = Some ''~''
      then snd (sys_chdir ok home_env s)
      else (case sys_chdir ok path s of
              (r, s') \<Rightarrow> if r \<noteq> 0 then emit (Perror ''cd'') s' else s'))"

datatype builtin_result =
    NotBuiltin
  | Handled shell
  | ExitShell int shell
  | BuiltinCrash error

text \<open>
  \<^verbatim>\<open>args[0]\<close> is compared with \<^verbatim>\<open>strcmp\<close> without a null check, and \<^verbatim>\<open>args[1]\<close> is read for
  \<^verbatim>\<open>cd\<close>; \<^verbatim>\<open>exitShell\<close> is \<^verbatim>\<open>exit(0)\<close>.
\<close>

definition executeBuiltInCommand ::
  "cptr \<Rightarrow> (string \<Rightarrow> bool) \<Rightarrow> cptr list \<Rightarrow> shell \<Rightarrow> builtin_result" where
  "executeBuiltInCommand home_env ok args s =
     (case args of
        [] \<Rightarrow> BuiltinCrash OutOfBounds
      | None # _ \<Rightarrow> BuiltinCrash NullDeref
      | Some c # rest \<Rightarrow>
          if c = ''exit'' then ExitShell 0 s
          else if c = ''cd'' then
            (case rest of
               [] \<Rightarrow> BuiltinCrash OutOfBounds
             | a1 # _ \<Rightarrow> Handled (changeDirectory home_env ok a1 s))
          else if c = ''status'' then Handled (printStatus s)
          else NotBuiltin)"

subsection \<open>Expanding \<^verbatim>\<open>$$\<close> and splitting the line\<close>

text \<open>\<^verbatim>\<open>strstr\<close>: the index of the first occurrence of the needle, \<open>None\<close> for a null result.\<close>

fun strstr :: "string \<Rightarrow> string \<Rightarrow> nat option" where
  "strstr [] needle = (if needle = [] then Some 0 else None)"
| "strstr (c # cs) needle =
     (if take (length needle) (c # cs) = needle then Some 0
      else map_option Suc (strstr cs needle))"

text \<open>
  One round of the loop of \<^verbatim>\<open>expandPID\<close> builds in \<^verbatim>\<open>temp\<close> the text before the placeholder,
  the process id and the text after the placeholder.
\<close>

definition splice_pid :: "string \<Rightarrow> nat \<Rightarrow> string \<Rightarrow> string" where
  "splice_pid pid_str i input = take i input @ pid_str @ drop (i + length ''$$'') input"

text \<open>
  \<^verbatim>\<open>temp\<close> and \<^verbatim>\<open>input\<close> are arrays of \<^verbatim>\<open>MAX_LENGTH\<close> bytes and \<^verbatim>\<open>strcpy\<close>, \<^verbatim>\<open>strcat\<close> do not check
  bounds: a text of \<^verbatim>\<open>MAX_LENGTH\<close> characters or more, with its final zero byte, is written
  past the end of the array.
\<close>

function expandPID_loop :: "int \<Rightarrow> string \<Rightarrow> error + string" where
  "expandPID_loop pid input =
     (case strstr input ''$$'' of
        None \<Rightarrow> Inr input
      | Some i \<Rightarrow>
          (if MAX_LENGTH \<le> length (splice_pid (fmt_d pid) i input) then Inl BufferOverflow
           else expandPID_loop pid (splice_pid (fmt_d pid) i input)))"
  by pat_completeness auto

text \<open>
  The loop of \<^verbatim>\<open>expandPID\<close> ends because the decimal text of the process id holds no \<^verbatim>\<open>$\<close>:
  each round removes two of them.
\<close>

lemma digit_in: "n < 10 \<Longrightarrow> digit n \<in> set ''0123456789''"
  unfolding digit_def by (rule nth_mem) simp

lemma digit_not_dollar: "n < 10 \<Longrightarrow> digit n \<noteq> CHR ''$''"
  using digit_in [of n] by auto

lemma dec_nat_no_dollar: "CHR ''$'' \<notin> set (dec_nat n)"
proof (induction n rule: dec_nat.induct)
  case (1 n)
  show ?case
  proof (cases "n < 10")
    case True
    then show ?thesis using digit_not_dollar [of n] by (subst dec_nat.simps) auto
  next
    case False
    have "n mod 10 < 10" by simp
    with False 1 show ?thesis using digit_not_dollar [of "n mod 10"] by (subst dec_nat.simps) auto
  qed
qed

lemma fmt_d_no_dollar: "CHR ''$'' \<notin> set (fmt_d p)"
  by (simp add: fmt_d_def dec_nat_no_dollar)

lemma strstr_Some:
  "strstr s n = Some i \<Longrightarrow> i + length n \<le> length s \<and> take (length n) (drop i s) = n"
proof (induction s arbitrary: i)
  case Nil
  then show ?case by (simp split: if_splits)
next
  case (Cons c cs)
  show ?case
  proof (cases "take (length n) (c # cs) = n")
    case True
    with Cons.prems have "i = 0" by simp
    moreover have "length (take (length n) (c # cs)) \<le> length (c # cs)"
      by simp
    with True have "length n \<le> length (c # cs)"
      by simp
    ultimately show ?thesis using True by simp
  next
    case False
    with Cons.prems obtain j where j: "strstr cs n = Some j" "i = Suc j" by auto
    from Cons.IH [OF j(1)] j(2) show ?thesis by simp
  qed
qed

definition dollars :: "string \<Rightarrow> nat" where
  "dollars s = length (filter (\<lambda>c. c = CHR ''$'') s)"

lemma strstr_dollars_split:
  assumes "strstr s ''$$'' = Some i"
  shows "s = take i s @ ''$$'' @ drop (i + 2) s"
proof -
  from strstr_Some [OF assms] have b: "take 2 (drop i s) = ''$$''"
    by (simp_all add: numeral_2_eq_2)
  have "drop i s = take 2 (drop i s) @ drop 2 (drop i s)"
    by (rule append_take_drop_id [symmetric])
  then have "drop i s = ''$$'' @ drop (i + 2) s"
    using b by (simp add: add.commute)
  then have "take i s @ drop i s = take i s @ ''$$'' @ drop (i + 2) s"
    by simp
  then show ?thesis by simp
qed

lemma dollars_splice:
  assumes "strstr s ''$$'' = Some i"
  shows "dollars (splice_pid (fmt_d p) i s) + 2 = dollars s"
proof -
  have f: "filter (\<lambda>c. c = CHR ''$'') (fmt_d p) = []"
    using fmt_d_no_dollar [of p] by (auto simp: filter_empty_conv)
  have "dollars s = dollars (take i s @ ''$$'' @ drop (i + 2) s)"
    using strstr_dollars_split [OF assms] by simp
  also have "\<dots> = dollars (take i s) + 2 + dollars (drop (i + 2) s)"
    by (simp add: dollars_def)
  finally show ?thesis using f by (simp add: dollars_def splice_pid_def)
qed

termination expandPID_loop
proof (relation "measure (\<lambda>(p, s). dollars s)")
  show "wf (measure (\<lambda>(p, s). dollars s))" by simp
next
  fix pid input i
  assume "strstr input ''$$'' = Some i"
  from dollars_splice [OF this, of pid]
  show "((pid, splice_pid (fmt_d pid) i input), (pid, input)) \<in> measure (\<lambda>(p, s). dollars s)"
    by simp
qed

declare expandPID_loop.simps [simp del]

text \<open>\<^verbatim>\<open>pid_str\<close> has 10 bytes, \<^verbatim>\<open>sprintf\<close> writes the digits and a zero byte.\<close>

definition expandPID :: "int \<Rightarrow> string \<Rightarrow> error + string" where
  "expandPID pid input =
     (if 10 \<le> length (fmt_d pid) then Inl BufferOverflow else expandPID_loop pid input)"

text \<open>
  \<^verbatim>\<open>strtok\<close> with the delimiter \<^verbatim>\<open>" "\<close>: a token is a longest run of characters other than the
  space; \<open>tok\<close> is the token being read.
\<close>

fun strtok_all :: "string \<Rightarrow> string \<Rightarrow> string list" where
  "strtok_all tok [] = (if tok = [] then [] else [tok])"
| "strtok_all tok (c # cs) =
     (if c = CHR '' '' then (if tok = [] then strtok_all [] cs else tok # strtok_all [] cs)
      else strtok_all (tok @ [c]) cs)"

text \<open>
  \<^verbatim>\<open>parseInput\<close> fills \<^verbatim>\<open>args\<close>, an array of \<^verbatim>\<open>MAX_ARGS\<close> pointers, with the tokens and a final
  \<^verbatim>\<open>NULL\<close>, without a bound check; it returns the array and \<^verbatim>\<open>arg_count\<close>.
\<close>

definition parseInput :: "string \<Rightarrow> error + (cptr list \<times> nat)" where
  "parseInput input =
     (let toks = strtok_all [] input
      in if MAX_ARGS \<le> length toks then Inl BufferOverflow
         else Inr (map Some toks @ [None], length toks))"

subsection \<open>The child branch of \<^verbatim>\<open>executeCommand\<close>\<close>

text \<open>
  An open descriptor refers to the terminal or to a file opened with given flags and
  mode. The descriptor table has a fixed number of slots, indexed by descriptor.
\<close>

datatype ofile = Terminal | File string "oflag list" "nat option"

type_synonym fdtable = "ofile option list"

text \<open>
  The system's answer to the \<open>k\<close>-th \<^verbatim>\<open>open\<close> of the process, for a path and flags: whether
  the file can be opened.
\<close>

type_synonym open_oracle = "nat \<Rightarrow> string \<Rightarrow> oflag list \<Rightarrow> bool"

record child =
  args :: "cptr list"
  in_redir :: int
  out_redir :: int
  fdtab :: fdtable
  ccalls :: "call list"

datatype fate = Exited int | Replaced string "string list" | Faulted error

definition child_init :: "cptr list \<Rightarrow> fdtable \<Rightarrow> child" where
  "child_init a tab = \<lparr>args = a, in_redir = - 1, out_redir = - 1, fdtab = tab, ccalls = []\<rparr>"

definition cemit :: "call \<Rightarrow> child \<Rightarrow> child" where
  "cemit ev c = c\<lparr>ccalls := ccalls c @ [ev]\<rparr>"

definition opens_made :: "child \<Rightarrow> nat" where
  "opens_made c = length (filter (\<lambda>ev. case ev of Open _ _ _ _ \<Rightarrow> True | _ \<Rightarrow> False) (ccalls c))"

definition lowest_free :: "fdtable \<Rightarrow> nat" where
  "lowest_free tab = length (takeWhile (\<lambda>x. x \<noteq> None) tab)"

text \<open>
  \<^verbatim>\<open>open\<close> fails for a null path, when the system refuses the file, and when no slot of the
  table is free; otherwise it returns the lowest free descriptor.
\<close>

definition can_open :: "open_oracle \<Rightarrow> fdtable \<Rightarrow> nat \<Rightarrow> cptr \<Rightarrow> oflag list \<Rightarrow> bool" where
  "can_open fs tab k path flags \<longleftrightarrow>
     (case path of
        None \<Rightarrow> False
      | Some p \<Rightarrow> fs k p flags \<and> lowest_free tab < length tab)"

definition sys_open ::
  "open_oracle \<Rightarrow> cptr \<Rightarrow> oflag list \<Rightarrow> nat option \<Rightarrow> child \<Rightarrow> int \<times> child" where
  "sys_open fs path flags mode c =
     (if can_open fs (fdtab c) (opens_made c) path flags
      then (int (lowest_free (fdtab c)),
            cemit (Open path flags mode (int (lowest_free (fdtab c))))
              (c\<lparr>fdtab := (fdtab c)[lowest_free (fdtab c) := Some (File (the path) flags mode)]\<rparr>))
      else (- 1, cemit (Open path flags mode (- 1)) c))"

definition valid_fd :: "fdtable \<Rightarrow> int \<Rightarrow> bool" where
  "valid_fd tab fd \<longleftrightarrow> 0 \<le> fd \<and> nat fd < length tab \<and> tab ! nat fd \<noteq> None"

text \<open>\<^verbatim>\<open>dup2\<close> and \<^verbatim>\<open>close\<close>; the shell does not look at what they return.\<close>

definition sys_dup2 :: "int \<Rightarrow> nat \<Rightarrow> child \<Rightarrow> child" where
  "sys_dup2 oldfd newfd c =
     cemit (Dup2 oldfd newfd)
       (if valid_fd (fdtab c) oldfd \<and> newfd < length (fdtab c)
        then c\<lparr>fdtab := (fdtab c)[newfd := fdtab c ! nat oldfd]\<rparr>
        else c)"

definition sys_close :: "int \<Rightarrow> child \<Rightarrow> child" where
  "sys_close fd c =
     cemit (Close fd)
       (if valid_fd (fdtab c) fd then c\<lparr>fdtab := (fdtab c)[nat fd := None]\<rparr> else c)"

text \<open>The failure path used five times in the child: \<^verbatim>\<open>perror("smallsh"); exit(EXIT_FAILURE);\<close>\<close>

definition die :: "child \<Rightarrow> fate \<times> child" where
  "die c = (Exited EXIT_FAILURE, cemit (Exit EXIT_FAILURE) (cemit (Perror ''smallsh'') c))"

text \<open>0644 in octal, the mode given to \<^verbatim>\<open>open\<close> for an output file.\<close>

definition mode_0644 :: nat where
  "mode_0644 = 6 * 64 + 4 * 8 + 4"

text \<open>
  The body of the \<^verbatim>\<open>for\<close> loop of lines 75-111 at index \<open>i\<close>, where \<^verbatim>\<open>args[i]\<close> is the string
  \<open>a\<close>. The path is \<^verbatim>\<open>args[i + 1]\<close>, which may be the final \<^verbatim>\<open>NULL\<close>.
\<close>

definition redirect_body :: "open_oracle \<Rightarrow> nat \<Rightarrow> string \<Rightarrow> child \<Rightarrow> fate \<times> child + child" where
  "redirect_body fs i a c =
     (if a = ''<'' then
        (if length (args c) \<le> i + 1 then Inl (Faulted OutOfBounds, c)
         else (case sys_open fs (args c ! (i + 1)) [O_RDONLY] None c of
                 (fd, c1) \<Rightarrow>
                   if fd = - 1 then Inl (die (c1\<lparr>in_redir := fd\<rparr>))
                   else Inr ((sys_close fd (sys_dup2 fd STDIN_FILENO (c1\<lparr>in_redir := fd\<rparr>)))
                               \<lparr>args := (args c)[i := None]\<rparr>)))
      else if a = ''>'' then
        (if length (args c) \<le> i + 1 then Inl (Faulted OutOfBounds, c)
         else (case sys_open fs (args c ! (i + 1)) [O_WRONLY, O_CREAT, O_TRUNC] (Some mode_0644) c of
                 (fd, c1) \<Rightarrow>
                   if fd = - 1 then Inl (die (c1\<lparr>out_redir := fd\<rparr>))
                   else Inr ((sys_close fd (sys_dup2 fd STDOUT_FILENO (c1\<lparr>out_redir := fd\<rparr>)))
                               \<lparr>args := (args c)[i := None]\<rparr>)))
      else Inr c)"

function redirect_loop :: "open_oracle \<Rightarrow> nat \<Rightarrow> child \<Rightarrow> fate \<times> child + child" where
  "redirect_loop fs i c =
     (if length (args c) \<le> i then Inl (Faulted OutOfBounds, c)
      else (case args c ! i of
              None \<Rightarrow> Inr c
            | Some a \<Rightarrow>
                (case redirect_body fs i a c of
                   Inl e \<Rightarrow> Inl e
                 | Inr c' \<Rightarrow> redirect_loop fs (i + 1) c')))"
  by pat_completeness auto

text \<open>The loop ends at the latest with the array: the body keeps the length of \<^verbatim>\<open>args\<close>.\<close>

lemma sys_open_args: "sys_open fs p fl m c = (fd, c1) \<Longrightarrow> args c1 = args c"
  by (auto simp: sys_open_def cemit_def split: option.splits if_splits)

lemma redirect_body_length:
  "redirect_body fs i a c = Inr c' \<Longrightarrow> length (args c') = length (args c)"
  by (auto simp: redirect_body_def sys_close_def sys_dup2_def cemit_def
           split: if_splits prod.splits dest: sys_open_args)

termination redirect_loop
proof (relation "measure (\<lambda>(fs, i, c). length (args c) - i)")
  show "wf (measure (\<lambda>(fs, i, c). length (args c) - i))" by simp
next
  fix fs :: open_oracle and i c a c'
  assume "\<not> length (args c) \<le> i" "redirect_body fs i a c = Inr c'"
  then show "((fs, i + 1, c'), (fs, i, c)) \<in> measure (\<lambda>(fs, i, c). length (args c) - i)"
    using redirect_body_length [of fs i a c c'] by simp
qed

declare redirect_loop.simps [simp del]

text \<open>
  Lines 114-145: a background child with no input redirection reads from \<^verbatim>\<open>/dev/null\<close>, one
  with no output redirection writes to it. \<^verbatim>\<open>in_redir\<close> and \<^verbatim>\<open>out_redir\<close> are still -1 when
  the loop above opened nothing for that stream.
\<close>

definition null_input :: "open_oracle \<Rightarrow> child \<Rightarrow> fate \<times> child + child" where
  "null_input fs c =
     (if in_redir c = - 1 then
        (case sys_open fs (Some ''/dev/null'') [O_RDONLY] None c of
           (devNullIn, c1) \<Rightarrow>
             if devNullIn = - 1 then Inl (die c1)
             else Inr (sys_close devNullIn (sys_dup2 devNullIn STDIN_FILENO c1)))
      else Inr c)"

definition null_output :: "open_oracle \<Rightarrow> child \<Rightarrow> fate \<times> child + child" where
  "null_output fs c =
     (if out_redir c = - 1 then
        (case sys_open fs (Some ''/dev/null'') [O_WRONLY] None c of
           (devNullOut, c1) \<Rightarrow>
             if devNullOut = - 1 then Inl (die c1)
             else Inr (sys_close devNullOut (sys_dup2 devNullOut STDOUT_FILENO c1)))
      else Inr c)"

definition background_defaults :: "open_oracle \<Rightarrow> bool \<Rightarrow> child \<Rightarrow> fate \<times> child + child" where
  "background_defaults fs is_background c =
     (if is_background then
        (case null_input fs c of
           Inl e \<Rightarrow> Inl e
         | Inr c1 \<Rightarrow> null_output fs c1)
      else Inr c)"

text \<open>
  \<^verbatim>\<open>execvp(args[0], args)\<close>: the argument vector is \<^verbatim>\<open>args\<close> up to its first \<^verbatim>\<open>NULL\<close>. When the
  system loads the program the process goes on as that program; when it does not, the
  child reports and exits. A null file name is read by \<^verbatim>\<open>execvp\<close> without a check.
\<close>

definition argv_of :: "cptr list \<Rightarrow> string list" where
  "argv_of a = map the (takeWhile (\<lambda>x. x \<noteq> None) a)"

definition run_execvp :: "(string \<Rightarrow> string list \<Rightarrow> bool) \<Rightarrow> child \<Rightarrow> fate \<times> child" where
  "run_execvp loads c =
     (case args c of
        [] \<Rightarrow> (Faulted OutOfBounds, c)
      | None # _ \<Rightarrow> (Faulted NullDeref, c)
      | Some file # _ \<Rightarrow>
          if loads file (argv_of (args c))
          then (Replaced file (argv_of (args c)), cemit (Execvp file (argv_of (args c))) c)
          else die (cemit (Execvp file (argv_of (args c))) c))"

text \<open>Lines 64-72: the signal dispositions of the child.\<close>

definition child_signals :: "bool \<Rightarrow> child \<Rightarrow> child" where
  "child_signals is_background c =
     (if is_background
      then cemit (Signal SIGTSTP SIG_IGN) (cemit (Signal SIGINT SIG_IGN) c)
      else cemit (Signal SIGTSTP SIG_IGN) (cemit (Signal SIGINT SIG_DFL) c))"

text \<open>The whole branch \<^verbatim>\<open>pid == 0\<close>: it ends in every case, by \<^verbatim>\<open>exit\<close> or as the new program.\<close>

definition executeCommand_child ::
  "open_oracle \<Rightarrow> (string \<Rightarrow> string list \<Rightarrow> bool) \<Rightarrow> fdtable \<Rightarrow> cptr list \<Rightarrow> bool \<Rightarrow> fate \<times> child" where
  "executeCommand_child fs loads tab a is_background =
     (case redirect_loop fs 0 (child_signals is_background (child_init a tab)) of
        Inl e \<Rightarrow> e
      | Inr c1 \<Rightarrow>
          (case background_defaults fs is_background c1 of
             Inl e \<Rightarrow> e
           | Inr c2 \<Rightarrow> run_execvp loads c2))"

subsection \<open>\<^verbatim>\<open>executeCommand\<close> and the loop of \<^verbatim>\<open>main\<close>\<close>

text \<open>
  What the system answers during one cycle of the loop: the children that the
  non-blocking \<^verbatim>\<open>waitpid(-1, ...)\<close> finds finished, the line \<^verbatim>\<open>fgets\<close> reads (\<open>None\<close> for a null
  result), the value of \<^verbatim>\<open>getpid\<close>, of \<^verbatim>\<open>getenv("HOME")\<close>, of \<^verbatim>\<open>fork\<close>, what the successive
  blocking calls \<^verbatim>\<open>waitpid(pid, ...)\<close> do for the process \<open>pid\<close>, and the answers to \<^verbatim>\<open>chdir\<close>,
  \<^verbatim>\<open>open\<close> and \<^verbatim>\<open>execvp\<close>. \<open>status_uninit\<close> is what the local \<^verbatim>\<open>status\<close> of \<^verbatim>\<open>executeCommand\<close>,
  which has no initial value, holds when the function begins. \<open>inherited\<close> is the
  descriptor table of the shell, which a child starts with.
\<close>

record sysenv =
  reaped :: "(int \<times> status) list"
  fgets_line :: "string option"
  shell_pid :: int
  home_env :: cptr
  chdir_ok :: "string \<Rightarrow> bool"
  fork_pid :: int
  status_uninit :: status
  wait_reports :: "int \<Rightarrow> status option list"
  open_ok :: open_oracle
  exec_ok :: "string \<Rightarrow> string list \<Rightarrow> bool"
  inherited :: fdtable

datatype exec_result =
    InChild fate child
  | InParent shell
  | ParentBlocked shell

text \<open>
  \<^verbatim>\<open>executeCommand\<close> runs on in two processes after \<^verbatim>\<open>fork\<close>; the value of \<^verbatim>\<open>pid\<close> tells which
  one is described. In the parent, a foreground command is waited for, by process id, and
  what \<^verbatim>\<open>status\<close> holds after the loop is stored in \<^verbatim>\<open>last_status\<close>; for a background command
  only the process id is printed.
\<close>

definition executeCommand :: "sysenv \<Rightarrow> cptr list \<Rightarrow> bool \<Rightarrow> shell \<Rightarrow> exec_result" where
  "executeCommand e a is_background s =
     (let pid = fork_pid e; s1 = emit (Fork pid) s
      in if pid = 0 then
           (case executeCommand_child (open_ok e) (exec_ok e) (inherited e) a is_background of
              (f, c) \<Rightarrow> InChild f c)
         else if pid < 0 then InParent (emit (Perror ''smallsh'') s1)
         else if \<not> is_background then
           (case fg_wait (status_uninit e) (wait_reports e pid) of
              None \<Rightarrow> ParentBlocked s1
            | Some st \<Rightarrow> InParent (s1\<lparr>last_status := st\<rparr>))
         else InParent (emit (Printf (''Background pid is '' @ fmt_d pid @ ''\<newline>'')) s1))"

text \<open>Lines 286-295: the report on each finished background child.\<close>

definition report_done :: "int \<Rightarrow> status \<Rightarrow> shell \<Rightarrow> shell" where
  "report_done finished_pid st s =
     (let s1 = emit (Printf (''Background pid '' @ fmt_d finished_pid @ '' is done: '')) s
      in if WIFEXITED st
         then emit (Printf (''exit value '' @ fmt_d (sint (WEXITSTATUS st)) @ ''\<newline>'')) s1
         else if WIFSIGNALED st
         then emit (Printf (''terminated by signal '' @ fmt_d (sint (WTERMSIG st)) @ ''\<newline>'')) s1
         else s1)"

fun reap :: "(int \<times> status) list \<Rightarrow> shell \<Rightarrow> shell" where
  "reap [] s = s"
| "reap ((finished_pid, st) # others) s = reap others (report_done finished_pid st s)"

text \<open>
  Lines 320-326: a last token \<^verbatim>\<open>&\<close> makes the command a background command and is replaced
  by \<^verbatim>\<open>NULL\<close>. The mode that \<^verbatim>\<open>handleSIGTSTP\<close> toggles is not read here.
\<close>

definition strip_background :: "cptr list \<times> nat \<Rightarrow> bool \<times> cptr list \<times> nat" where
  "strip_background p =
     (case p of
        (a, arg_count) \<Rightarrow>
          if 0 < arg_count \<and> a ! (arg_count - 1) = Some ''&''
          then (True, a[arg_count - 1 := None], arg_count - 1)
          else (False, a, arg_count))"

text \<open>How one cycle of the loop ends.\<close>

datatype action = ReadError | Skipped | Builtin | Launched "cptr list" bool

datatype cycle =
    Next action shell
  | ShellExit int shell
  | Crashed error
  | Blocked shell
  | ChildEnd fate child

definition main_cycle :: "sysenv \<Rightarrow> shell \<Rightarrow> cycle" where
  "main_cycle e s =
     (let s1 = emit Fflush (emit (Printf '': '') (reap (reaped e) s))
      in case fgets_line e of
           None \<Rightarrow> Next ReadError (emit (Fprintf_stderr ''Error reading input.\<newline>'') s1)
         | Some raw \<Rightarrow>
             (let input = takeWhile (\<lambda>ch. ch \<noteq> CHR ''\<newline>'') raw
              in if length input = 0 \<or> hd input = CHR ''#'' then Next Skipped s1
                 else (case expandPID (shell_pid e) input of
                         Inl err \<Rightarrow> Crashed err
                       | Inr input' \<Rightarrow>
                           (case parseInput input' of
                              Inl err \<Rightarrow> Crashed err
                            | Inr parsed \<Rightarrow>
                                (case strip_background parsed of
                                   (is_background, a, arg_count) \<Rightarrow>
                                     (case executeBuiltInCommand (home_env e) (chdir_ok e) a s1 of
                                        BuiltinCrash err \<Rightarrow> Crashed err
                                      | ExitShell code s2 \<Rightarrow> ShellExit code s2
                                      | Handled s2 \<Rightarrow> Next Builtin s2
                                      | NotBuiltin \<Rightarrow>
                                          (case executeCommand e a is_background s1 of
                                             InChild f c \<Rightarrow> ChildEnd f c
                                           | InParent s2 \<Rightarrow> Next (Launched a is_background) s2
                                           | ParentBlocked s2 \<Rightarrow> Blocked s2)))))))"



text \<open>The state of the shell that a cycle ends with, when it ends in the shell.\<close>

fun shell_of :: "cycle \<Rightarrow> shell option" where
  "shell_of (Next act s) = Some s"
| "shell_of (ShellExit code s) = Some s"
| "shell_of (Blocked s) = Some s"
| "shell_of (Crashed err) = None"
| "shell_of (ChildEnd f c) = None"

subsection \<open>The redirection protocol as the specification words it\<close>
















text \<open>
  The expansion as the specification words it: reading the line from the left, each pair
  \<^verbatim>\<open>$$\<close> is replaced by the text \<open>p\<close> of the process id.
\<close>

fun replace_dollars :: "string \<Rightarrow> string \<Rightarrow> string" where
  "replace_dollars p [] = []"
| "replace_dollars p [c] = [c]"
| "replace_dollars p (c # d # cs) =
     (if c = CHR ''$'' \<and> d = CHR ''$'' then p @ replace_dollars p cs
      else c # replace_dollars p (d # cs))"

text \<open>The state after the polling and the prompt, with which every cycle begins (lines 286-298).\<close>

definition prompted :: "sysenv \<Rightarrow> shell \<Rightarrow> shell" where
  "prompted e s = emit Fflush (emit (Printf '': '') (reap (reaped e) s))"

text \<open>
  A system to run examples in: the shell has process id 4567, \<^verbatim>\<open>fork\<close> gives the child 4321,
  every file opens and every program loads, no directory can be entered, no call of
  \<^verbatim>\<open>waitpid\<close> has been answered yet, and the descriptors 0, 1 and 2 are the terminal, with
  one free slot after them.
\<close>

definition env_example :: sysenv where
  "env_example =
     \<lparr>reaped = [], fgets_line = None, shell_pid = 4567, home_env = None,
      chdir_ok = (\<lambda>d. False), fork_pid = 4321, status_uninit = 0, wait_reports = (\<lambda>p. []),
      open_ok = (\<lambda>k p fl. True), exec_ok = (\<lambda>f av. True),
      inherited = [Some Terminal, Some Terminal, Some Terminal, None]\<rparr>"

section \<open>Properties\<close>

subsection \<open>Evaluating \<^verbatim>\<open>%d\<close>\<close>

lemma dec_nat_small: "n < 10 \<Longrightarrow> dec_nat n = [digit n]"
  by (subst dec_nat.simps) simp

lemma dec_nat_large: "10 \<le> n \<Longrightarrow> dec_nat n = dec_nat (n div 10) @ [digit (n mod 10)]"
  by (subst dec_nat.simps) simp

lemmas dec_eval = fmt_d_def dec_nat_small dec_nat_large digit_def

subsection \<open>The three kinds of status exclude each other\<close>

lemma stopped_low7: "WIFSTOPPED st \<Longrightarrow> st AND 0x7f = 0x7f"
proof -
  assume "WIFSTOPPED st"
  then have a: "st AND 0xff = 0x7f" by (simp add: WIFSTOPPED_def)
  have "st AND 0x7f = (st AND 0xff) AND 0x7f" by (simp add: and.assoc)
  then show ?thesis using a by simp
qed

lemma stopped_not_exited: "WIFSTOPPED st \<Longrightarrow> \<not> WIFEXITED st"
  using stopped_low7 [of st] by (auto simp: WIFEXITED_def WTERMSIG_def)

lemma stopped_not_signaled: "WIFSTOPPED st \<Longrightarrow> \<not> WIFSIGNALED st"
  using stopped_low7 [of st] by (auto simp: WIFSIGNALED_def)

lemma fg_wait_through_stops:
  "\<forall>st\<in>set stops. \<not> WIFEXITED st \<and> \<not> WIFSIGNALED st \<Longrightarrow> WIFEXITED fin \<or> WIFSIGNALED fin \<Longrightarrow>
     fg_wait cur (map Some stops @ Some fin # later) = Some fin"
  by (induction stops arbitrary: cur) auto

lemma fg_wait_only_stops:
  "\<forall>st\<in>set stops. \<not> WIFEXITED st \<and> \<not> WIFSIGNALED st \<Longrightarrow> fg_wait cur (map Some stops) = None"
  by (induction stops arbitrary: cur) simp_all


subsection \<open>The terminal-stop handler\<close>

lemma write_msg_enter: "sys_write fd msg_enter 50 s = emit (Write fd msg_enter) s"
  by (simp add: sys_write_def msg_enter_def)

lemma write_msg_exit: "sys_write fd msg_exit 30 s = emit (Write fd msg_exit) s"
  by (simp add: sys_write_def msg_exit_def)

text \<open>
  C6. Each delivery of the terminal-stop signal flips the foreground-only mode, so two
  deliveries in a row give the mode back; each delivery makes exactly one call, a
  \<^verbatim>\<open>write\<close> to standard output of one of the two banners (the leaving banner when the mode
  was set, the entering banner when it was not), and no \<^verbatim>\<open>printf\<close>. The handler touches
  neither the last foreground status nor the working directory.
\<close>

theorem sigtstp_toggles_mode:
  "is_foreground_only (handleSIGTSTP s) = (\<not> is_foreground_only s)
   \<and> is_foreground_only (handleSIGTSTP (handleSIGTSTP s)) = is_foreground_only s
   \<and> calls (handleSIGTSTP s) =
       calls s @ [Write STDOUT_FILENO (if is_foreground_only s then msg_exit else msg_enter)]
   \<and> last_status (handleSIGTSTP s) = last_status s
   \<and> cwd (handleSIGTSTP s) = cwd s"
  by (simp add: handleSIGTSTP_def write_msg_enter write_msg_exit emit_def Let_def)

subsection \<open>Frame lemmas\<close>

lemma emit_fields [simp]:
  "last_status (emit ev s) = last_status s"
  "is_foreground_only (emit ev s) = is_foreground_only s"
  "cwd (emit ev s) = cwd s"
  "calls (emit ev s) = calls s @ [ev]"
  by (simp_all add: emit_def)

lemma report_done_fields [simp]:
  "last_status (report_done p st s) = last_status s"
  "is_foreground_only (report_done p st s) = is_foreground_only s"
  "cwd (report_done p st s) = cwd s"
  by (simp_all add: report_done_def Let_def)

lemma report_done_calls:
  "\<exists>out. calls (report_done p st s) = calls s @ out \<and> set out \<subseteq> range Printf"
  by (simp add: report_done_def Let_def)

lemma reap_fields [simp]:
  "last_status (reap rs s) = last_status s"
  "is_foreground_only (reap rs s) = is_foreground_only s"
  "cwd (reap rs s) = cwd s"
  by (induction rs s rule: reap.induct) simp_all

lemma reap_calls:
  "\<exists>out. calls (reap rs s) = calls s @ out \<and> set out \<subseteq> range Printf"
proof (induction rs s rule: reap.induct)
  case (1 s)
  then show ?case by simp
next
  case (2 p st others s)
  from report_done_calls [of p st s] obtain o1 where
    o1: "calls (report_done p st s) = calls s @ o1" "set o1 \<subseteq> range Printf" by blast
  from 2 obtain o2 where
    o2: "calls (reap others (report_done p st s)) = calls (report_done p st s) @ o2"
        "set o2 \<subseteq> range Printf" by blast
  have "calls (reap ((p, st) # others) s) = calls s @ (o1 @ o2)" using o1 o2 by simp
  moreover have "set (o1 @ o2) \<subseteq> range Printf" using o1 o2 by simp
  ultimately show ?case by blast
qed

lemma printStatus_fields [simp]:
  "last_status (printStatus s) = last_status s"
  "is_foreground_only (printStatus s) = is_foreground_only s"
  "cwd (printStatus s) = cwd s"
  by (simp_all add: printStatus_def)

lemma changeDirectory_last_status [simp]:
  "last_status (changeDirectory h ok p s) = last_status s"
  by (auto simp: changeDirectory_def sys_chdir_def split: option.splits)

lemma builtin_last_status:
  "executeBuiltInCommand h ok a s = Handled s' \<Longrightarrow> last_status s' = last_status s"
  "executeBuiltInCommand h ok a s = ExitShell code s' \<Longrightarrow> last_status s' = last_status s"
  by (auto simp: executeBuiltInCommand_def split: list.splits option.splits if_splits)

lemma executeCommand_blocked:
  "executeCommand e a bg s = ParentBlocked s' \<Longrightarrow> last_status s' = last_status s"
  by (auto simp: executeCommand_def Let_def split: if_splits option.splits prod.splits)

lemma executeCommand_parent:
  "executeCommand e a bg s = InParent s' \<Longrightarrow> last_status s' \<noteq> last_status s \<Longrightarrow>
     \<not> bg \<and> 0 < fork_pid e
     \<and> fg_wait (status_uninit e) (wait_reports e (fork_pid e)) = Some (last_status s')"
  by (auto simp: executeCommand_def Let_def split: if_splits option.splits prod.splits)

text \<open>The ways in which a cycle can end in the shell.\<close>

lemma prompted_fields [simp]:
  "last_status (prompted e s) = last_status s"
  "is_foreground_only (prompted e s) = is_foreground_only s"
  "cwd (prompted e s) = cwd s"
  by (simp_all add: prompted_def)

lemma main_cycle_inversion:
  assumes "shell_of (main_cycle e s) = Some s'"
  shows "main_cycle e s = Next ReadError (emit (Fprintf_stderr ''Error reading input.\<newline>'') (prompted e s))
       \<or> main_cycle e s = Next Skipped (prompted e s)
       \<or> (\<exists>a. executeBuiltInCommand (home_env e) (chdir_ok e) a (prompted e s) = Handled s')
       \<or> (\<exists>a code. executeBuiltInCommand (home_env e) (chdir_ok e) a (prompted e s) = ExitShell code s')
       \<or> (\<exists>a bg. executeCommand e a bg (prompted e s) = InParent s'
                  \<and> main_cycle e s = Next (Launched a bg) s')
       \<or> (\<exists>a bg. executeCommand e a bg (prompted e s) = ParentBlocked s')"
  using assms unfolding main_cycle_def prompted_def Let_def
  by (auto split: option.splits sum.splits prod.splits builtin_result.splits exec_result.splits
                 if_splits)

lemma main_cycle_last_status:
  assumes "shell_of (main_cycle e s) = Some s'" and "last_status s' \<noteq> last_status s"
  shows "(\<exists>a. main_cycle e s = Next (Launched a False) s') \<and> 0 < fork_pid e
         \<and> fg_wait (status_uninit e) (wait_reports e (fork_pid e)) = Some (last_status s')"
proof -
  from main_cycle_inversion [OF assms(1)]
  consider (rd) "main_cycle e s = Next ReadError (emit (Fprintf_stderr ''Error reading input.\<newline>'') (prompted e s))"
    | (sk) "main_cycle e s = Next Skipped (prompted e s)"
    | (bi) a where "executeBuiltInCommand (home_env e) (chdir_ok e) a (prompted e s) = Handled s'"
    | (ex) a code where "executeBuiltInCommand (home_env e) (chdir_ok e) a (prompted e s) = ExitShell code s'"
    | (la) a bg where "executeCommand e a bg (prompted e s) = InParent s'"
                      "main_cycle e s = Next (Launched a bg) s'"
    | (bl) a bg where "executeCommand e a bg (prompted e s) = ParentBlocked s'"
    by blast
  then show ?thesis
  proof cases
    case rd
    with assms show ?thesis by auto
  next
    case sk
    with assms show ?thesis by auto
  next
    case bi
    from builtin_last_status(1) [OF this] assms(2) show ?thesis by simp
  next
    case ex
    from builtin_last_status(2) [OF this] assms(2) show ?thesis by simp
  next
    case la
    from assms(2) have "last_status s' \<noteq> last_status (prompted e s)" by simp
    from executeCommand_parent [OF la(1) this] la(2) show ?thesis by simp
  next
    case bl
    from executeCommand_blocked [OF this] assms(2) show ?thesis by simp
  qed
qed

subsection \<open>Evaluating the model on a given line\<close>

lemma expandPID_loop_None: "strstr input ''$$'' = None \<Longrightarrow> expandPID_loop pid input = Inr input"
  by (subst expandPID_loop.simps) simp

lemma expandPID_loop_Some:
  "strstr input ''$$'' = Some i \<Longrightarrow>
     expandPID_loop pid input =
       (if MAX_LENGTH \<le> length (splice_pid (fmt_d pid) i input) then Inl BufferOverflow
        else expandPID_loop pid (splice_pid (fmt_d pid) i input))"
  by (subst expandPID_loop.simps) simp

lemmas line_eval =
  main_cycle_def Let_def expandPID_def expandPID_loop_None expandPID_loop_Some splice_pid_def
  dec_eval parseInput_def MAX_ARGS_def MAX_LENGTH_def strip_background_def
  executeBuiltInCommand_def executeCommand_def

subsection \<open>The foreground wait\<close>

text \<open>
  When every call of \<^verbatim>\<open>waitpid\<close> succeeds, the parent (\<^verbatim>\<open>fork\<close> returned a process id above 0)
  of a command that is not a background command goes through every report of a stopped
  child and ends its wait at the first report of an exit or of a termination by signal;
  that raw status is stored in \<^verbatim>\<open>last_status\<close>. While only stops have been reported the
  parent stays in the loop. When the next line read is \<^verbatim>\<open>status\<close>, the next cycle runs the
  built-in, which prints the exit value or the signal of exactly that status. A line whose
  last token is not \<^verbatim>\<open>&\<close> is not a background command.
\<close>

lemma foreground_wait_when_waitpid_succeeds:
  assumes "0 < fork_pid e"
    and "\<forall>st\<in>set stops. WIFSTOPPED st"
    and "WIFEXITED fin \<or> WIFSIGNALED fin"
    and "wait_reports e (fork_pid e) = map Some stops @ Some fin # later"
    and "s' = (emit (Fork (fork_pid e)) s)\<lparr>last_status := fin\<rparr>"
    and "fgets_line e2 = Some ''status\<newline>''"
    and "length (fmt_d (shell_pid e2)) < 10"
  shows "executeCommand e a False s = InParent s'
       \<and> executeCommand (e\<lparr>wait_reports := (\<lambda>p. map Some stops)\<rparr>) a False s
           = ParentBlocked (emit (Fork (fork_pid e)) s)
       \<and> main_cycle e2 s' = Next Builtin (printStatus (prompted e2 s'))
       \<and> calls (printStatus (prompted e2 s')) = calls (prompted e2 s') @
            [Printf (if WIFEXITED fin
                     then ''exit value '' @ fmt_d (sint (WEXITSTATUS fin)) @ ''\<newline>''
                     else ''terminated by signal '' @ fmt_d (sint (WTERMSIG fin)) @ ''\<newline>'')]
       \<and> ((toks = [] \<or> last toks \<noteq> ''&'') \<longrightarrow>
            strip_background (map Some toks @ [None], length toks)
              = (False, map Some toks @ [None], length toks))"
proof -
  have nt: "\<forall>st\<in>set stops. \<not> WIFEXITED st \<and> \<not> WIFSIGNALED st"
    using assms(2) stopped_not_exited stopped_not_signaled by blast
  have w1: "fg_wait (status_uninit e) (map Some stops @ Some fin # later) = Some fin"
    using nt assms(3) by (rule fg_wait_through_stops)
  have w2: "fg_wait (status_uninit e) (map Some stops) = None"
    using nt by (rule fg_wait_only_stops)
  have a: "executeCommand e a False s = InParent s'"
    using assms(1,4,5) w1 by (simp add: executeCommand_def Let_def)
  have b: "executeCommand (e\<lparr>wait_reports := (\<lambda>p. map Some stops)\<rparr>) a False s
             = ParentBlocked (emit (Fork (fork_pid e)) s)"
    using assms(1) w2 by (simp add: executeCommand_def Let_def)
  have c: "main_cycle e2 s' = Next Builtin (printStatus (prompted e2 s'))"
    using assms(6,7)
    by (simp add: main_cycle_def Let_def expandPID_def expandPID_loop_None parseInput_def
          MAX_ARGS_def strip_background_def executeBuiltInCommand_def prompted_def)
  have d: "calls (printStatus (prompted e2 s')) = calls (prompted e2 s') @
            [Printf (if WIFEXITED fin
                     then ''exit value '' @ fmt_d (sint (WEXITSTATUS fin)) @ ''\<newline>''
                     else ''terminated by signal '' @ fmt_d (sint (WTERMSIG fin)) @ ''\<newline>'')]"
    using assms(5) by (simp add: printStatus_def)
  have f: "(toks = [] \<or> last toks \<noteq> ''&'') \<longrightarrow>
            strip_background (map Some toks @ [None], length toks)
              = (False, map Some toks @ [None], length toks)"
  proof (cases "toks = []")
    case True
    then show ?thesis by (simp add: strip_background_def)
  next
    case False
    then have "(map Some toks @ [None]) ! (length toks - 1) = Some (last toks)"
      by (simp add: nth_append last_conv_nth)
    then show ?thesis using False by (simp add: strip_background_def)
  qed
  from a b c d f show ?thesis by blast
qed

text \<open>
  C1. The wait does not store the outcome of the child in every foreground launch. The
  line is \<^verbatim>\<open>false\<close>, with no \<^verbatim>\<open>&\<close>: the cycle creates the child 4321 and waits for it as a
  foreground command. The one call \<^verbatim>\<open>waitpid(4321, &status, WUNTRACED)\<close> fails: it returns -1,
  which line 161 drops, and writes nothing into \<^verbatim>\<open>status\<close>, which has no initial value and
  holds \<^verbatim>\<open>0x7ffe\<close>. That value passes the test of line 162, so the loop ends and line 164
  stores it: \<^verbatim>\<open>last_status\<close> is a value that no call of \<^verbatim>\<open>waitpid\<close> reported for the child,
  and the \<^verbatim>\<open>status\<close> built-in of the next cycle prints "terminated by signal 126".
\<close>

theorem failed_waitpid_stores_stale_status:
  "main_cycle (env_example\<lparr>fgets_line := Some ''false\<newline>'', status_uninit := 0x7ffe,
                            wait_reports := (\<lambda>p. if p = 4321 then [None] else [])\<rparr>)
       (shell_init ''/'')
     = Next (Launched [Some ''false'', None] False)
         \<lparr>last_status = 0x7ffe, is_foreground_only = False,
          calls = [Printf '': '', Fflush, Fork 4321], cwd = ''/''\<rparr>
   \<and> main_cycle (env_example\<lparr>fgets_line := Some ''status\<newline>''\<rparr>)
       \<lparr>last_status = 0x7ffe, is_foreground_only = False,
        calls = [Printf '': '', Fflush, Fork 4321], cwd = ''/''\<rparr>
     = Next Builtin
         \<lparr>last_status = 0x7ffe, is_foreground_only = False,
          calls = [Printf '': '', Fflush, Fork 4321, Printf '': '', Fflush,
                   Printf ''terminated by signal 126\<newline>''],
          cwd = ''/''\<rparr>"
proof -
  have t: "\<not> WIFEXITED (0x7ffe :: status)" "WIFSIGNALED (0x7ffe :: status)"
    by (simp_all add: WIFEXITED_def WIFSIGNALED_def WTERMSIG_def)
  have a: "main_cycle (env_example\<lparr>fgets_line := Some ''false\<newline>'', status_uninit := 0x7ffe,
                            wait_reports := (\<lambda>p. if p = 4321 then [None] else [])\<rparr>)
       (shell_init ''/'')
     = Next (Launched [Some ''false'', None] False)
         \<lparr>last_status = 0x7ffe, is_foreground_only = False,
          calls = [Printf '': '', Fflush, Fork 4321], cwd = ''/''\<rparr>"
    using t by (simp add: line_eval env_example_def emit_def shell_init_def)
  have s: "fmt_d (sint (WTERMSIG 0x7ffe)) = ''126''"
    by (simp add: WTERMSIG_def dec_eval)
  have b: "main_cycle (env_example\<lparr>fgets_line := Some ''status\<newline>''\<rparr>)
       \<lparr>last_status = 0x7ffe, is_foreground_only = False,
        calls = [Printf '': '', Fflush, Fork 4321], cwd = ''/''\<rparr>
     = Next Builtin
         \<lparr>last_status = 0x7ffe, is_foreground_only = False,
          calls = [Printf '': '', Fflush, Fork 4321, Printf '': '', Fflush,
                   Printf ''terminated by signal 126\<newline>''],
          cwd = ''/''\<rparr>"
    using t s
    by (simp add: main_cycle_def Let_def expandPID_def expandPID_loop_None parseInput_def
          MAX_ARGS_def MAX_LENGTH_def strip_background_def executeBuiltInCommand_def
          env_example_def emit_def printStatus_def dec_nat_small dec_nat_large digit_def
          fmt_d_def [of 4567])
  from a b show ?thesis by simp
qed

subsection \<open>Background requests and the foreground-only mode\<close>

text \<open>
  C2. The launch path does not read the mode. With the mode set by one delivery of the
  terminal-stop signal, the line \<^verbatim>\<open>sleep 5 &\<close> is still launched as a background command:
  the parent prints the background process id and comes back to the prompt without a
  wait, although the child has reported nothing yet.
\<close>

theorem background_request_kept_in_foreground_only_mode:
  "is_foreground_only (handleSIGTSTP (shell_init ''/''))
   \<and> main_cycle (env_example\<lparr>fgets_line := Some ''sleep 5 &\<newline>''\<rparr>) (handleSIGTSTP (shell_init ''/''))
     = Next (Launched [Some ''sleep'', Some ''5'', None, None] True)
         \<lparr>last_status = 0, is_foreground_only = True,
          calls = [Write 1 msg_enter, Printf '': '', Fflush, Fork 4321,
                   Printf ''Background pid is 4321\<newline>''],
          cwd = ''/''\<rparr>"
  by (simp add: line_eval env_example_def handleSIGTSTP_def write_msg_enter emit_def
        shell_init_def STDOUT_FILENO_def)

subsection \<open>Who writes the last foreground status\<close>

text \<open>
  C5. \<^verbatim>\<open>last_status\<close> starts as 0, which encodes an exit with value 0. The polling of
  finished background children and both signal handlers leave it as it is. When a cycle
  of the loop ends in the shell with another value than it began with, that cycle
  launched a foreground command, \<^verbatim>\<open>fork\<close> gave a child, and the new value is what the
  foreground wait returned.
\<close>

theorem last_status_written_only_by_foreground_wait:
  "last_status (shell_init d) = 0 \<and> WIFEXITED 0 \<and> WEXITSTATUS 0 = 0
   \<and> calls (printStatus (shell_init d)) = [Printf ''exit value 0\<newline>'']
   \<and> last_status (reap finished s) = last_status s
   \<and> last_status (handleSIGTSTP s) = last_status s
   \<and> last_status (handleSIGINT s) = last_status s
   \<and> (shell_of (main_cycle e s) = Some s' \<and> last_status s' \<noteq> last_status s \<longrightarrow>
        (\<exists>a. main_cycle e s = Next (Launched a False) s') \<and> 0 < fork_pid e
        \<and> fg_wait (status_uninit e) (wait_reports e (fork_pid e)) = Some (last_status s'))"
proof -
  have a: "last_status (shell_init d) = 0 \<and> WIFEXITED 0 \<and> WEXITSTATUS 0 = 0"
    by (simp add: shell_init_def WIFEXITED_def WTERMSIG_def WEXITSTATUS_def)
  have b: "calls (printStatus (shell_init d)) = [Printf ''exit value 0\<newline>'']"
    by (simp add: printStatus_def shell_init_def WIFEXITED_def WTERMSIG_def WEXITSTATUS_def dec_eval)
  have c: "last_status (handleSIGTSTP s) = last_status s"
    by (simp add: handleSIGTSTP_def Let_def sys_write_def)
  have d: "last_status (handleSIGINT s) = last_status s"
    by (simp add: handleSIGINT_def)
  from a b c d main_cycle_last_status [of e s s'] show ?thesis by simp
qed

theorem last_status_written_only_by_foreground_wait_witness:
  "shell_of (main_cycle (env_example\<lparr>fgets_line := Some ''false\<newline>'', wait_reports := (\<lambda>p. [Some 0x100])\<rparr>)
       (shell_init ''/''))
     = Some \<lparr>last_status = 0x100, is_foreground_only = False,
             calls = [Printf '': '', Fflush, Fork 4321], cwd = ''/''\<rparr>
   \<and> (0x100 :: status) \<noteq> last_status (shell_init ''/'')
   \<and> main_cycle (env_example\<lparr>fgets_line := Some ''false\<newline>'', wait_reports := (\<lambda>p. [Some 0x100])\<rparr>)
       (shell_init ''/'')
     = Next (Launched [Some ''false'', None] False)
         \<lparr>last_status = 0x100, is_foreground_only = False,
          calls = [Printf '': '', Fflush, Fork 4321], cwd = ''/''\<rparr>
   \<and> fg_wait 0 [Some 0x100] = Some 0x100"
proof -
  let ?e = "env_example\<lparr>fgets_line := Some ''false\<newline>'', wait_reports := (\<lambda>p. [Some 0x100])\<rparr>"
  let ?s' = "\<lparr>last_status = 0x100, is_foreground_only = False,
              calls = [Printf '': '', Fflush, Fork 4321], cwd = ''/''\<rparr>"
  have m: "main_cycle ?e (shell_init ''/'') = Next (Launched [Some ''false'', None] False) ?s'"
    by (simp add: line_eval env_example_def emit_def shell_init_def WIFEXITED_def WTERMSIG_def)
  have h: "shell_of (main_cycle ?e (shell_init ''/'')) = Some ?s' \<and> last_status ?s' \<noteq> last_status (shell_init ''/'')"
    using m by (simp add: shell_init_def)
  from last_status_written_only_by_foreground_wait [of "''/''" "[]" "shell_init ''/''" ?e ?s'] h m
  show ?thesis by (simp add: env_example_def shell_init_def)
qed

subsection \<open>Blank lines and comments\<close>

text \<open>
  C8. When the line read, cut at its newline, is empty or begins with \<^verbatim>\<open>#\<close>, the cycle ends
  right after the prompt: nothing is dispatched or launched. Since the start of the cycle
  the shell has only called \<^verbatim>\<open>printf\<close> and \<^verbatim>\<open>fflush\<close> (no \<^verbatim>\<open>fork\<close>), and the last foreground
  status, the mode and the working directory are as before.
\<close>

theorem blank_or_comment_line_is_skipped:
  assumes "fgets_line e = Some raw"
    and "input = takeWhile (\<lambda>ch. ch \<noteq> CHR ''\<newline>'') raw"
    and "input = [] \<or> hd input = CHR ''#''"
  shows "main_cycle e s = Next Skipped (emit Fflush (emit (Printf '': '') (reap (reaped e) s)))
       \<and> (\<forall>s'. shell_of (main_cycle e s) = Some s' \<longrightarrow>
             last_status s' = last_status s \<and> is_foreground_only s' = is_foreground_only s
             \<and> cwd s' = cwd s
             \<and> (\<exists>out. calls s' = calls s @ out \<and> set out \<subseteq> range Printf \<union> {Fflush}))"
proof -
  have m: "main_cycle e s = Next Skipped (emit Fflush (emit (Printf '': '') (reap (reaped e) s)))"
    using assms by (auto simp: main_cycle_def Let_def)
  from reap_calls [of "reaped e" s] obtain out where
    out: "calls (reap (reaped e) s) = calls s @ out" "set out \<subseteq> range Printf" by blast
  have "calls (emit Fflush (emit (Printf '': '') (reap (reaped e) s))) = calls s @ (out @ [Printf '': '', Fflush])"
    using out by simp
  moreover have "set (out @ [Printf '': '', Fflush]) \<subseteq> range Printf \<union> {Fflush}"
    using out by auto
  ultimately have "\<exists>out. calls (emit Fflush (emit (Printf '': '') (reap (reaped e) s))) = calls s @ out
                       \<and> set out \<subseteq> range Printf \<union> {Fflush}"
    by blast
  with m show ?thesis by simp
qed

theorem blank_or_comment_line_is_skipped_witness:
  "main_cycle (env_example\<lparr>fgets_line := Some ''# ls > junk &\<newline>'', reaped := [(77, 0x000f)]\<rparr>)
       (shell_init ''/'')
     = Next Skipped
         \<lparr>last_status = 0, is_foreground_only = False,
          calls = [Printf ''Background pid 77 is done: '', Printf ''terminated by signal 15\<newline>'',
                   Printf '': '', Fflush],
          cwd = ''/''\<rparr>"
proof -
  let ?e = "env_example\<lparr>fgets_line := Some ''# ls > junk &\<newline>'', reaped := [(77, 0x000f)]\<rparr>"
  have h1: "fgets_line ?e = Some ''# ls > junk &\<newline>''" by (simp add: env_example_def)
  have h2: "''# ls > junk &'' = takeWhile (\<lambda>ch. ch \<noteq> CHR ''\<newline>'') ''# ls > junk &\<newline>''" by simp
  have h3: "''# ls > junk &'' = [] \<or> hd ''# ls > junk &'' = CHR ''#''" by simp
  from blank_or_comment_line_is_skipped [OF h1 h2 h3, of "shell_init ''/''"]
  show ?thesis
    by (simp add: env_example_def shell_init_def emit_def report_done_def Let_def
          WIFEXITED_def WIFSIGNALED_def WTERMSIG_def dec_eval)
qed

subsection \<open>The status is never that of a stopped child\<close>

lemma handlers_last_status [simp]:
  "last_status (handleSIGTSTP s) = last_status s"
  "last_status (handleSIGINT s) = last_status s"
  by (simp_all add: handleSIGTSTP_def Let_def sys_write_def handleSIGINT_def)





subsection \<open>\<^verbatim>\<open>cd\<close> to the home directory\<close>

text \<open>
  C10. For \<^verbatim>\<open>cd\<close> with no argument or with \<^verbatim>\<open>~\<close>, the result of \<^verbatim>\<open>chdir\<close> on the value of
  \<^verbatim>\<open>HOME\<close> is not looked at: when the variable is unset or the directory cannot be
  entered, the state of the shell is exactly as before, nothing is reported, and the
  built-in counts as handled, so the loop goes on. With any other path a failure is
  reported by \<^verbatim>\<open>perror("cd")\<close>.
\<close>

theorem cd_home_failure_is_silent:
  assumes "path = None \<or> path = Some ''~''"
  shows "changeDirectory h ok path s
           = (case h of None \<Rightarrow> s | Some d \<Rightarrow> if ok d then s\<lparr>cwd := d\<rparr> else s)
       \<and> calls (changeDirectory h ok path s) = calls s
       \<and> executeBuiltInCommand h ok (Some ''cd'' # path # rest) s
           = Handled (changeDirectory h ok path s)
       \<and> (p \<noteq> ''~'' \<longrightarrow>
            changeDirectory h ok (Some p) s
              = (if ok p then s\<lparr>cwd := p\<rparr> else emit (Perror ''cd'') s))"
  using assms
  by (auto simp: changeDirectory_def sys_chdir_def executeBuiltInCommand_def split: option.splits)

theorem cd_home_failure_is_silent_witness:
  "changeDirectory None (\<lambda>d. False) None (shell_init ''/'') = shell_init ''/''
   \<and> changeDirectory (Some ''/nonexistent'') (\<lambda>d. False) (Some ''~'') (shell_init ''/'') = shell_init ''/''
   \<and> executeBuiltInCommand None (\<lambda>d. False) [Some ''cd'', None] (shell_init ''/'')
       = Handled (shell_init ''/'')
   \<and> changeDirectory None (\<lambda>d. False) (Some ''/nonexistent'') (shell_init ''/'')
       = \<lparr>last_status = 0, is_foreground_only = False, calls = [Perror ''cd''], cwd = ''/''\<rparr>"
proof -
  have h: "(None :: cptr) = None \<or> (None :: cptr) = Some ''~''" by simp
  have h': "Some ''~'' = (None :: cptr) \<or> Some ''~'' = Some ''~''" by simp
  from cd_home_failure_is_silent [OF h, of None "\<lambda>d. False" "shell_init ''/''" "[]" "''/nonexistent''"]
       cd_home_failure_is_silent [OF h', of "Some ''/nonexistent''" "\<lambda>d. False" "shell_init ''/''" "[]" "''/nonexistent''"]
  show ?thesis by (simp add: shell_init_def emit_def)
qed

subsection \<open>The descriptor table under \<^verbatim>\<open>open\<close>, \<^verbatim>\<open>dup2\<close>, \<^verbatim>\<open>close\<close>\<close>












subsection \<open>The loop of the source against the protocol\<close>











subsection \<open>The child from its first call to \<^verbatim>\<open>execvp\<close>\<close>




















lemmas child_eval =
  executeCommand_child_def redirect_loop.simps redirect_body_def sys_open_def can_open_def
  opens_made_def lowest_free_def sys_dup2_def sys_close_def valid_fd_def cemit_def
  child_signals_def child_init_def background_defaults_def null_input_def null_output_def
  run_execvp_def argv_of_def die_def STDIN_FILENO_def STDOUT_FILENO_def EXIT_FAILURE_def
  mode_0644_def


subsection \<open>Explicit redirections\<close>



subsection \<open>Implicit redirections of a background child\<close>



subsection \<open>The expansion of \<^verbatim>\<open>$$\<close>\<close>

lemma dec_nat_nonempty: "dec_nat n \<noteq> []"
  by (subst dec_nat.simps) simp

lemma fmt_d_nonempty: "fmt_d p \<noteq> []"
  by (simp add: fmt_d_def dec_nat_nonempty)

lemma strstr_dollars_Cons2:
  "strstr (c # d # cs) ''$$'' =
     (if c = CHR ''$'' \<and> d = CHR ''$'' then Some 0 else map_option Suc (strstr (d # cs) ''$$''))"
  by auto

lemma replace_dollars_pair [simp]:
  "replace_dollars p (CHR ''$'' # CHR ''$'' # cs) = p @ replace_dollars p cs"
  by simp

lemma replace_dollars_other:
  "\<not> (c = CHR ''$'' \<and> d = CHR ''$'') \<Longrightarrow>
     replace_dollars p (c # d # cs) = c # replace_dollars p (d # cs)"
  by (cases "c = CHR ''$''") auto

declare replace_dollars.simps(3) [simp del]

lemma replace_dollars_none: "strstr s ''$$'' = None \<Longrightarrow> replace_dollars p s = s"
proof (induction p s rule: replace_dollars.induct)
  case (1 p)
  show ?case by simp
next
  case (2 p c)
  show ?case by simp
next
  case (3 p c d cs)
  from "3.prems" have n: "\<not> (c = CHR ''$'' \<and> d = CHR ''$'')" and r: "strstr (d # cs) ''$$'' = None"
    unfolding strstr_dollars_Cons2 by (simp_all split: if_splits)
  from "3.IH"(2) [OF n r] replace_dollars_other [OF n] show ?case by simp
qed

lemma replace_dollars_first:
  "strstr s ''$$'' = Some i \<Longrightarrow>
     replace_dollars p s = take i s @ p @ replace_dollars p (drop (i + 2) s)"
proof (induction p s arbitrary: i rule: replace_dollars.induct)
  case (1 p)
  then show ?case by simp
next
  case (2 p c)
  then show ?case by simp
next
  case (3 p c d cs)
  show ?case
  proof (cases "c = CHR ''$'' \<and> d = CHR ''$''")
    case True
    with "3.prems" have "i = 0" unfolding strstr_dollars_Cons2 by simp
    with True show ?thesis by simp
  next
    case False
    with "3.prems" obtain j where j: "strstr (d # cs) ''$$'' = Some j" "i = Suc j"
      unfolding strstr_dollars_Cons2 by auto
    from "3.IH"(2) [OF False j(1)] replace_dollars_other [OF False] j(2) show ?thesis by simp
  qed
qed

lemma replace_dollars_spliced:
  "strstr s ''$$'' = Some i \<Longrightarrow> CHR ''$'' \<notin> set p \<Longrightarrow> p \<noteq> [] \<Longrightarrow>
     replace_dollars q (take i s @ p @ rest) = take i s @ replace_dollars q (p @ rest)"
proof (induction q s arbitrary: i rule: replace_dollars.induct)
  case (1 q)
  then show ?case by simp
next
  case (2 q c)
  then show ?case by simp
next
  case (3 q c d cs)
  show ?case
  proof (cases "c = CHR ''$'' \<and> d = CHR ''$''")
    case True
    with "3.prems" have "i = 0" unfolding strstr_dollars_Cons2 by simp
    then show ?thesis by simp
  next
    case False
    with "3.prems"(1) obtain j where j: "strstr (d # cs) ''$$'' = Some j" "i = Suc j"
      unfolding strstr_dollars_Cons2 by auto
    from "3.IH"(2) [OF False j(1) "3.prems"(2,3)]
    have ih: "replace_dollars q (take j (d # cs) @ p @ rest) = take j (d # cs) @ replace_dollars q (p @ rest)" .
    obtain x xs where p: "p = x # xs" using "3.prems"(3) by (cases p) auto
    with "3.prems"(2) have x: "x \<noteq> CHR ''$''" by auto
    show ?thesis
    proof (cases j)
      case 0
      have "replace_dollars q (take i (c # d # cs) @ p @ rest) = replace_dollars q (c # x # xs @ rest)"
        using 0 j(2) p by simp
      also have "\<dots> = c # replace_dollars q (x # xs @ rest)"
        using x by (simp add: replace_dollars_other)
      finally show ?thesis using 0 j(2) p by simp
    next
      case (Suc k)
      have "replace_dollars q (take i (c # d # cs) @ p @ rest)
              = replace_dollars q (c # d # (take k cs @ p @ rest))"
        using Suc j(2) by simp
      also have "\<dots> = c # replace_dollars q (d # (take k cs @ p @ rest))"
        using False by (rule replace_dollars_other)
      also have "d # (take k cs @ p @ rest) = take j (d # cs) @ p @ rest" using Suc by simp
      finally show ?thesis using ih Suc j(2) by simp
    qed
  qed
qed

lemma replace_dollars_no_dollar:
  "CHR ''$'' \<notin> set p \<Longrightarrow> p \<noteq> [] \<Longrightarrow> replace_dollars q (p @ rest) = p @ replace_dollars q rest"
proof (induction p)
  case Nil
  then show ?case by simp
next
  case (Cons x xs)
  then have x: "x \<noteq> CHR ''$''" by auto
  show ?case
  proof (cases xs)
    case Nil
    show ?thesis
    proof (cases rest)
      case Nil
      with \<open>xs = []\<close> show ?thesis by simp
    next
      case (Cons r rs)
      with \<open>xs = []\<close> x show ?thesis by (simp add: replace_dollars_other)
    qed
  next
    case (Cons y ys)
    with Cons.prems Cons.IH have "replace_dollars q (xs @ rest) = xs @ replace_dollars q rest" by auto
    with Cons x show ?thesis by (simp add: replace_dollars_other)
  qed
qed

lemma replace_dollars_splice:
  assumes "strstr s ''$$'' = Some i"
  shows "replace_dollars (fmt_d pid) (splice_pid (fmt_d pid) i s) = replace_dollars (fmt_d pid) s"
proof -
  let ?p = "fmt_d pid"
  have "replace_dollars ?p (take i s @ ?p @ drop (i + 2) s)
          = take i s @ replace_dollars ?p (?p @ drop (i + 2) s)"
    using assms fmt_d_no_dollar fmt_d_nonempty by (rule replace_dollars_spliced)
  also have "\<dots> = take i s @ ?p @ replace_dollars ?p (drop (i + 2) s)"
    using replace_dollars_no_dollar [OF fmt_d_no_dollar fmt_d_nonempty] by simp
  also have "\<dots> = replace_dollars ?p s"
    using replace_dollars_first [OF assms] by simp
  finally show ?thesis by (simp add: splice_pid_def)
qed

lemma replace_dollars_grows: "2 \<le> length p \<Longrightarrow> length s \<le> length (replace_dollars p s)"
proof (induction p s rule: replace_dollars.induct)
  case (1 p)
  show ?case by simp
next
  case (2 p c)
  show ?case by simp
next
  case (3 p c d cs)
  show ?case
  proof (cases "c = CHR ''$'' \<and> d = CHR ''$''")
    case True
    with "3.IH"(1) "3.prems" show ?thesis by simp
  next
    case False
    with "3.IH"(2) "3.prems" replace_dollars_other [OF False, of p cs] show ?thesis by simp
  qed
qed

lemma splice_length:
  assumes "strstr s ''$$'' = Some i"
  shows "length (splice_pid p i s) + 2 = length s + length p"
proof -
  from strstr_Some [OF assms] have "i + 2 \<le> length s" by simp
  then show ?thesis by (simp add: splice_pid_def)
qed

text \<open>
  The loop of the source against the words of the specification: for a line that fits in
  its buffer, the loop gives the line with every pair replaced when that text fits in
  the buffer too, and writes past the end of the buffer when it does not.
\<close>

lemma expandPID_loop_closed:
  "length input < MAX_LENGTH \<Longrightarrow>
     expandPID_loop pid input =
       (if length (replace_dollars (fmt_d pid) input) < MAX_LENGTH
        then Inr (replace_dollars (fmt_d pid) input) else Inl BufferOverflow)"
proof (induction pid input rule: expandPID_loop.induct)
  case (1 pid input)
  let ?p = "fmt_d pid"
  show ?case
  proof (cases "strstr input ''$$''")
    case None
    then have "expandPID_loop pid input = Inr input" by (rule expandPID_loop_None)
    with replace_dollars_none [OF None, of ?p] "1.prems" show ?thesis by simp
  next
    case (Some i)
    let ?sp = "splice_pid ?p i input"
    have same: "replace_dollars ?p ?sp = replace_dollars ?p input"
      using Some by (rule replace_dollars_splice)
    have len: "length ?sp + 2 = length input + length ?p" using Some by (rule splice_length)
    have ne: "1 \<le> length ?p" using fmt_d_nonempty [of pid] by (cases ?p) simp_all
    show ?thesis
    proof (cases "MAX_LENGTH \<le> length ?sp")
      case True
      then have ov: "expandPID_loop pid input = Inl BufferOverflow"
        using expandPID_loop_Some [OF Some, of pid] by simp
      from True len "1.prems" have "2 \<le> length ?p" by simp
      from replace_dollars_grows [OF this, of ?sp] True same
      have "\<not> length (replace_dollars ?p input) < MAX_LENGTH" by simp
      with ov show ?thesis by simp
    next
      case False
      then have "expandPID_loop pid input = expandPID_loop pid ?sp"
        using expandPID_loop_Some [OF Some, of pid] by simp
      moreover from False have "length ?sp < MAX_LENGTH" by simp
      from "1.IH" [OF Some False this] same
      have "expandPID_loop pid ?sp =
              (if length (replace_dollars ?p input) < MAX_LENGTH
               then Inr (replace_dollars ?p input) else Inl BufferOverflow)"
        by simp
      ultimately show ?thesis by simp
    qed
  qed
qed

lemma expandPID_closed:
  assumes "length (fmt_d pid) < 10" and "length input < MAX_LENGTH"
  shows "expandPID pid input =
           (if length (replace_dollars (fmt_d pid) input) < MAX_LENGTH
            then Inr (replace_dollars (fmt_d pid) input) else Inl BufferOverflow)"
  using assms(1) expandPID_loop_closed [OF assms(2), of pid] by (simp add: expandPID_def)

text \<open>
  The example of the specification: with the process id 4567 the line \<^verbatim>\<open>echo $$\<close> is expanded
  before it is split, and the child of the cycle calls \<^verbatim>\<open>execvp\<close> with the argument vector
  \<^verbatim>\<open>echo\<close>, \<^verbatim>\<open>4567\<close>.
\<close>

lemma echo_pid_example:
  "expandPID 4567 ''echo $$'' = Inr ''echo 4567''
   \<and> (\<exists>c. main_cycle (env_example\<lparr>fgets_line := Some ''echo $$\<newline>'', fork_pid := 0\<rparr>) (shell_init ''/'')
            = ChildEnd (Replaced ''echo'' [''echo'', ''4567'']) c)"
proof -
  have a: "expandPID 4567 ''echo $$'' = Inr ''echo 4567''"
    by (simp add: expandPID_def expandPID_loop_None expandPID_loop_Some splice_pid_def dec_eval
          MAX_LENGTH_def)
  have b: "\<exists>c. main_cycle (env_example\<lparr>fgets_line := Some ''echo $$\<newline>'', fork_pid := 0\<rparr>) (shell_init ''/'')
            = ChildEnd (Replaced ''echo'' [''echo'', ''4567'']) c"
    by (simp add: line_eval child_eval env_example_def shell_init_def emit_def)
  from a b show ?thesis by simp
qed

lemma replace_dollars_pairs:
  "replace_dollars p (concat (replicate n ''$$'')) = concat (replicate n p)"
  by (induction n) simp_all

lemma length_concat_replicate: "length (concat (replicate n xs)) = n * length xs"
  by (induction n) simp_all

lemma set_concat_replicate: "x \<in> set (concat (replicate n xs)) \<Longrightarrow> x \<in> set xs"
  by (induction n) auto

text \<open>
  C7. The expansion is not done for every line. The line made of 1023 pairs \<^verbatim>\<open>$$\<close> has 2046
  characters and fits, with its newline, in the buffer of \<^verbatim>\<open>MAX_LENGTH\<close> = 2048 bytes that
  \<^verbatim>\<open>fgets\<close> fills. With the process id 4567 the line with every pair replaced has 4092
  characters, twice what \<^verbatim>\<open>input\<close> can hold. \<^verbatim>\<open>expandPID\<close> builds each intermediate text with
  \<^verbatim>\<open>strcpy\<close> and \<^verbatim>\<open>strcat\<close> in \<^verbatim>\<open>temp\<close> and copies it back into \<^verbatim>\<open>input\<close>, both of
  \<^verbatim>\<open>MAX_LENGTH\<close> bytes, and checks no length: the first round already writes 2049 bytes into
  each, and the line with every pair replaced needs 4093, which is 2045 bytes more than either
  array has. The expanded line cannot be in \<^verbatim>\<open>input\<close> when \<^verbatim>\<open>parseInput\<close> is called. C gives
  the run no meaning from the first write past an array, so the cycle of the model ends
  there, with \<open>Crashed BufferOverflow\<close>, and neither splits the line nor launches a command.
\<close>

theorem expansion_far_beyond_buffer:
  "length (concat (replicate 1023 ''$$'') @ ''\<newline>'') < MAX_LENGTH
   \<and> length (replace_dollars (fmt_d 4567) (concat (replicate 1023 ''$$''))) = 4092
   \<and> expandPID 4567 (concat (replicate 1023 ''$$'')) = Inl BufferOverflow
   \<and> main_cycle (env_example\<lparr>fgets_line := Some (concat (replicate 1023 ''$$'') @ ''\<newline>'')\<rparr>) s
       = Crashed BufferOverflow"
proof -
  let ?line = "concat (replicate 1023 ''$$'')"
  have p: "fmt_d 4567 = ''4567''" by (simp add: dec_eval)
  have r: "length (replace_dollars (fmt_d 4567) ?line) = 4092"
    unfolding p replace_dollars_pairs length_concat_replicate by simp
  have l: "length ?line < MAX_LENGTH"
    unfolding length_concat_replicate by (simp add: MAX_LENGTH_def)
  have x: "expandPID 4567 ?line = Inl BufferOverflow"
    using expandPID_closed [of 4567 ?line] l p r by (simp add: MAX_LENGTH_def)
  have "takeWhile (\<lambda>ch. ch \<noteq> CHR ''\<newline>'') (?line @ ''\<newline>'')
          = ?line @ takeWhile (\<lambda>ch. ch \<noteq> CHR ''\<newline>'') ''\<newline>''"
    by (rule takeWhile_append2) (auto dest: set_concat_replicate)
  then have tw: "takeWhile (\<lambda>ch. ch \<noteq> CHR ''\<newline>'') (?line @ ''\<newline>'') = ?line"
    by simp
  have "replicate 1023 ''$$'' = ''$$'' # replicate 1022 ''$$''"
    by (simp add: replicate_Suc [symmetric] del: replicate_Suc)
  then have h: "hd ?line = CHR ''$''" by simp
  have n: "length ?line \<noteq> 0" unfolding length_concat_replicate by simp
  have m: "main_cycle (env_example\<lparr>fgets_line := Some (?line @ ''\<newline>'')\<rparr>) s = Crashed BufferOverflow"
    unfolding main_cycle_def Let_def using tw h n x by (simp add: env_example_def)
  have "length (?line @ ''\<newline>'') < MAX_LENGTH"
    using l unfolding length_concat_replicate by (simp add: MAX_LENGTH_def length_concat_replicate)
  with r x m show ?thesis by simp
qed

end
